theory Spec2Isabelle
  imports Complex_Main
begin

section \<open>JavaScript numbers and their text\<close>

text \<open>
  A JavaScript number is an IEEE 754 double. \<open>Num q\<close> is the finite double whose exact
  value is the rational \<open>q\<close>. The two zeros are one value here: the dashboard only formats
  numbers, multiplies them by 100 and compares them with 0, and none of these tells
  \<^verbatim>\<open>-0\<close> from \<^verbatim>\<open>+0\<close>.
\<close>

datatype jsnum = Num rat | NaN | PosInfinity | NegInfinity

definition pow2 :: "int \<Rightarrow> rat" where
  "pow2 e = (if 0 \<le> e then 2 ^ nat e else 1 / 2 ^ nat (- e))"

definition pow10 :: "int \<Rightarrow> rat" where
  "pow10 e = (if 0 \<le> e then 10 ^ nat e else 1 / 10 ^ nat (- e))"

text \<open>The digits of \<open>n\<close> in base \<open>b\<close>, most significant first; \<open>[0]\<close> for zero.\<close>

function digits_in :: "int \<Rightarrow> int \<Rightarrow> int list" where
  "digits_in b n = (if b < 2 \<or> n < b then [n] else digits_in b (n div b) @ [n mod b])"
  by pat_completeness auto
termination
  by (relation "measure (\<lambda>(b, n). nat n)") (auto intro: int_div_less_self)

declare digits_in.simps [simp del]

definition numdigits :: "int \<Rightarrow> int \<Rightarrow> int" where
  "numdigits b n = (if n \<le> 0 then 0 else int (length (digits_in b n)))"

text \<open>\<open>ilog b a\<close> is the integer \<open>e\<close> with \<open>b ^ e \<le> a < b ^ (e + 1)\<close>, for \<open>a > 0\<close>.\<close>

definition ilog :: "int \<Rightarrow> rat \<Rightarrow> int" where
  "ilog b a = (if 1 \<le> a then numdigits b \<lfloor>a\<rfloor> - 1 else - numdigits b (\<lceil>1 / a\<rceil> - 1))"

definition round_half_even :: "rat \<Rightarrow> int" where
  "round_half_even x =
     (let n = \<lfloor>x\<rfloor>; r = x - of_int n
      in if r < 1 / 2 then n else if 1 / 2 < r then n + 1 else if even n then n else n + 1)"

definition round_half_up :: "rat \<Rightarrow> int" where
  "round_half_up x = \<lfloor>x + 1 / 2\<rfloor>"

text \<open>
  Rounding a real result to a double: to the nearest value with a 53-bit significand
  (subnormals below \<open>2 ^ -1022\<close>), ties to the even significand, overflow to an infinity.
\<close>

definition fl :: "rat \<Rightarrow> jsnum" where
  "fl q =
     (if q = 0 then Num 0
      else
        let a = \<bar>q\<bar>;
            e = max (ilog 2 a) (- 1022);
            u = pow2 (e - 52);
            v = of_int (round_half_even (a / u)) * u
        in if pow2 1024 \<le> v then (if q < 0 then NegInfinity else PosInfinity)
           else Num (if q < 0 then - v else v))"

text \<open>The operator \<^verbatim>\<open>*\<close> on numbers.\<close>

fun js_mul :: "jsnum \<Rightarrow> jsnum \<Rightarrow> jsnum" where
  "js_mul NaN _ = NaN"
| "js_mul _ NaN = NaN"
| "js_mul (Num a) (Num b) = fl (a * b)"
| "js_mul (Num a) PosInfinity = (if a = 0 then NaN else if 0 < a then PosInfinity else NegInfinity)"
| "js_mul (Num a) NegInfinity = (if a = 0 then NaN else if 0 < a then NegInfinity else PosInfinity)"
| "js_mul PosInfinity (Num b) = (if b = 0 then NaN else if 0 < b then PosInfinity else NegInfinity)"
| "js_mul NegInfinity (Num b) = (if b = 0 then NaN else if 0 < b then NegInfinity else PosInfinity)"
| "js_mul PosInfinity PosInfinity = PosInfinity"
| "js_mul NegInfinity NegInfinity = PosInfinity"
| "js_mul PosInfinity NegInfinity = NegInfinity"
| "js_mul NegInfinity PosInfinity = NegInfinity"

text \<open>The operator \<^verbatim>\<open>>\<close> on numbers.\<close>

fun js_gt :: "jsnum \<Rightarrow> jsnum \<Rightarrow> bool" where
  "js_gt NaN _ = False"
| "js_gt _ NaN = False"
| "js_gt (Num a) (Num b) = (b < a)"
| "js_gt (Num a) PosInfinity = False"
| "js_gt (Num a) NegInfinity = True"
| "js_gt PosInfinity PosInfinity = False"
| "js_gt PosInfinity _ = True"
| "js_gt NegInfinity _ = False"

definition digit_char :: "int \<Rightarrow> char" where
  "digit_char d =
     (if d = 0 then CHR ''0'' else if d = 1 then CHR ''1'' else if d = 2 then CHR ''2''
      else if d = 3 then CHR ''3'' else if d = 4 then CHR ''4'' else if d = 5 then CHR ''5''
      else if d = 6 then CHR ''6'' else if d = 7 then CHR ''7'' else if d = 8 then CHR ''8''
      else CHR ''9'')"

definition dec_digits :: "int \<Rightarrow> string" where
  "dec_digits n = map digit_char (digits_in 10 n)"

text \<open>
  \<^verbatim>\<open>Number::toString\<close> for a finite \<open>x \<ge> 10 ^ 21\<close>, the only range in which
  \<^verbatim>\<open>toFixed\<close> falls back on it: the shortest digit string \<open>s\<close> (\<open>k\<close> digits) such that
  \<open>s * 10 ^ (n - k)\<close> rounds to \<open>x\<close>, written in exponent notation.
\<close>

definition shortest_candidate :: "rat \<Rightarrow> int \<Rightarrow> int \<Rightarrow> int option" where
  "shortest_candidate x n k =
     (let p = 10 ^ nat (n - k); lo = \<lfloor>x / p\<rfloor>; hi = lo + 1;
          ok = (\<lambda>s. 10 ^ nat (k - 1) \<le> s \<and> s < 10 ^ nat k \<and> fl (of_int s * p) = Num x)
      in if ok lo \<and> ok hi
         then Some (if x - of_int lo * p \<le> of_int hi * p - x then lo else hi)
         else if ok lo then Some lo
         else if ok hi then Some hi
         else None)"

fun shortest_from :: "nat \<Rightarrow> rat \<Rightarrow> int \<Rightarrow> int \<Rightarrow> int \<times> int" where
  "shortest_from 0 x n k = (k, \<lfloor>x / 10 ^ nat (n - k)\<rfloor>)"
| "shortest_from (Suc fuel) x n k =
     (case shortest_candidate x n k of
        Some s \<Rightarrow> (k, s)
      | None \<Rightarrow> shortest_from fuel x n (k + 1))"

definition to_string_large :: "rat \<Rightarrow> string" where
  "to_string_large x =
     (let n0 = numdigits 10 \<lfloor>x\<rfloor>;
          (n, k, s) = (if fl (10 ^ nat n0) = Num x then (n0 + 1, 1, 1)
                       else (n0, shortest_from 17 x n0 1));
          ds = dec_digits s;
          e = dec_digits (n - 1)
      in if k = 1 then ds @ ''e+'' @ e
         else take 1 ds @ ''.'' @ drop 1 ds @ ''e+'' @ e)"

text \<open>
  \<^verbatim>\<open>Number.prototype.toFixed(f)\<close>, for \<open>0 \<le> f \<le> 100\<close> (the dashboard passes 0, 1, 2
  and 4): non-finite values give their names; a magnitude of \<open>10 ^ 21\<close> or more gives
  \<^verbatim>\<open>toString\<close>; otherwise the integer \<open>n\<close> nearest to \<open>x * 10 ^ f\<close> (the larger of two)
  is written with a point before its last \<open>f\<close> digits, padded with zeros on the left.
\<close>

definition toFixed :: "nat \<Rightarrow> jsnum \<Rightarrow> string" where
  "toFixed f x =
     (case x of
        NaN \<Rightarrow> ''NaN''
      | PosInfinity \<Rightarrow> ''Infinity''
      | NegInfinity \<Rightarrow> ''-Infinity''
      | Num q \<Rightarrow>
          (let s = (if q < 0 then ''-'' else []);
               a = \<bar>q\<bar>
           in if 10 ^ 21 \<le> a then s @ to_string_large a
              else
                let n = round_half_up (a * 10 ^ f);
                    m = dec_digits n
                in if f = 0 then s @ m
                   else
                     let m' = (if length m \<le> f then replicate (f + 1 - length m) CHR ''0'' @ m
                               else m);
                         k = length m'
                     in s @ take (k - f) m' @ ''.'' @ drop (k - f) m'))"

text \<open>
  \<^verbatim>\<open>Number.prototype.toExponential(f)\<close>: one digit, a point, \<open>f\<close> digits, and the
  decimal exponent with its sign.
\<close>

definition toExponential :: "nat \<Rightarrow> jsnum \<Rightarrow> string" where
  "toExponential f x =
     (case x of
        NaN \<Rightarrow> ''NaN''
      | PosInfinity \<Rightarrow> ''Infinity''
      | NegInfinity \<Rightarrow> ''-Infinity''
      | Num q \<Rightarrow>
          (let s = (if q < 0 then ''-'' else []);
               a = \<bar>q\<bar>;
               (e, m0) =
                 (if a = 0 then (0, replicate (f + 1) CHR ''0'')
                  else
                    let e0 = ilog 10 a;
                        n0 = round_half_up (a / pow10 (e0 - int f))
                    in if 10 ^ (f + 1) \<le> n0 then (e0 + 1, dec_digits (10 ^ f))
                       else (e0, dec_digits n0));
               m = (if f = 0 then m0 else take 1 m0 @ ''.'' @ drop 1 m0);
               c = (if 0 \<le> e then ''+'' else ''-'')
           in s @ m @ ''e'' @ c @ dec_digits \<bar>e\<bar>))"

section \<open>The payloads of the two requests\<close>

text \<open>
  A numeric field of a payload, as the dashboard reads it: a missing key reads as
  \<^verbatim>\<open>undefined\<close>, JSON \<^verbatim>\<open>null\<close> as \<^verbatim>\<open>null\<close>, anything else is a number. The
  objects that the dashboard dereferences without a guard (\<^verbatim>\<open>metrics.federated_model\<close>,
  \<^verbatim>\<open>metrics.improvement\<close>, \<^verbatim>\<open>metrics.privacy_metrics\<close>, and the three fields of the
  status) are required by the types below; the ones it guards with \<^verbatim>\<open>?.\<close> or
  \<^verbatim>\<open>&&\<close> are optional.
\<close>

datatype field = Undefined | Null | Number jsnum

text \<open>\<^verbatim>\<open>ToNumber\<close>, applied by \<^verbatim>\<open>*\<close> and \<^verbatim>\<open>>\<close> to their operands.\<close>

fun to_number :: "field \<Rightarrow> jsnum" where
  "to_number Undefined = NaN"
| "to_number Null = Num 0"
| "to_number (Number x) = x"

text \<open>\<^verbatim>\<open>metrics.federated_model\<close> and \<^verbatim>\<open>metrics.improvement\<close> have the same two keys.\<close>

record scores =
  auc :: field
  recall :: field

record privacy_metrics_obj =
  epsilon :: field
  delta :: field
  noise_multiplier :: field
  l2_norm_clip :: field

record membership_inference_obj =
  defense_success_rate :: field

record model_inversion_obj =
  defense_score :: field

record privacy_attacks_obj =
  overall_defense_rate :: field
  membership_inference :: "membership_inference_obj option"
  model_inversion :: "model_inversion_obj option"

record metrics_snapshot =
  federated_model :: scores
  improvement :: scores
  privacy_metrics :: privacy_metrics_obj
  communication_cost_mb :: field
  privacy_attacks :: "privacy_attacks_obj option"

record status_snapshot =
  status :: string
  message :: string
  progress_percentage :: jsnum

section \<open>The dashboard's view state and the fetch cycle\<close>

text \<open>
  \<^verbatim>\<open>Dashboard.jsx\<close> keeps four pieces of React state: \<^verbatim>\<open>metrics\<close>, \<^verbatim>\<open>status\<close>,
  \<^verbatim>\<open>loading\<close> and \<^verbatim>\<open>error\<close>. The payloads of the two requests are kept abstract here
  (type variables \<open>'m\<close> and \<open>'s\<close>); the rendering sections below instantiate them.
  \<^verbatim>\<open>null\<close> is \<open>None\<close>.
\<close>

record ('m, 's) view_state =
  metrics :: "'m option"
  status :: "'s option"
  loading :: bool
  error :: "string option"

text \<open>
  \<^verbatim>\<open>useState(null)\<close>, \<^verbatim>\<open>useState(null)\<close>, \<^verbatim>\<open>useState(true)\<close>, \<^verbatim>\<open>useState(null)\<close>.
\<close>

definition initial_state :: "('m, 's) view_state" where
  "initial_state = \<lparr>metrics = None, status = None, loading = True, error = None\<rparr>"

text \<open>
  \<^verbatim>\<open>getMetrics\<close> and \<^verbatim>\<open>getStatus\<close> live in \<^verbatim>\<open>../api/api\<close>; what a call gives back is an
  input of the model. A request either resolves with a response whose \<^verbatim>\<open>data\<close> is the
  payload, or rejects with an \<^verbatim>\<open>Error\<close> carrying a \<^verbatim>\<open>message\<close>.
\<close>

datatype 'a response = Resolved 'a | Rejected string

record ('m, 's) cycle =
  getMetrics :: "'m response"
  getStatus :: "'s response"

text \<open>
  \<^verbatim>\<open>getMetrics().catch(() => null)\<close>: a rejected metrics request becomes \<^verbatim>\<open>null\<close>.
\<close>

definition metricsRes :: "('m, 's) cycle \<Rightarrow> 'm option" where
  "metricsRes c = (case getMetrics c of Resolved m \<Rightarrow> Some m | Rejected _ \<Rightarrow> None)"

text \<open>
  One run of \<^verbatim>\<open>fetchData\<close>, from the point where \<^verbatim>\<open>Promise.all\<close> settles. The code after
  the \<^verbatim>\<open>await\<close> has no further suspension point, so its state updates are applied
  together:
  \<^verbatim>\<open>
    try {
      const [metricsRes, statusRes] = await Promise.all([
        getMetrics().catch(() => null), getStatus()]);
      if (metricsRes) { setMetrics(metricsRes.data); }
      setStatus(statusRes.data);
      setError(null);
    } catch (err) { setError(err.message); }
    finally { setLoading(false); }
  \<close>
\<close>

definition fetchData :: "('m, 's) cycle \<Rightarrow> ('m, 's) view_state \<Rightarrow> ('m, 's) view_state" where
  "fetchData c s =
     (let s' =
        (case getStatus c of
           Rejected msg \<Rightarrow> s\<lparr>error := Some msg\<rparr>
         | Resolved statusData \<Rightarrow>
             (let s1 = (case metricsRes c of
                          Some metricsData \<Rightarrow> s\<lparr>metrics := Some metricsData\<rparr>
                        | None \<Rightarrow> s)
              in s1\<lparr>status := Some statusData, error := None\<rparr>))
      in s'\<lparr>loading := False\<rparr>)"

text \<open>The state after a sequence of cycles has completed, in completion order.\<close>

fun run_cycles :: "('m, 's) cycle list \<Rightarrow> ('m, 's) view_state \<Rightarrow> ('m, 's) view_state" where
  "run_cycles [] s = s"
| "run_cycles (c # cs) s = run_cycles cs (fetchData c s)"


section \<open>Rendering\<close>

text \<open>
  What a render puts on the screen, as far as it depends on the state: the texts and the
  severities. Layout, icons and colours are constant and left out.
\<close>

datatype severity = Success | Info | Error | Warning

record alert =
  severity :: severity
  children :: string

record card =
  card_title :: string
  card_value :: string
  card_improvement :: "string option"
  card_subtitle :: "string option"

record attack_defense =
  overall_defense :: string
  membership_inference_defense :: string
  model_inversion_defense :: string

record privacy_panel =
  epsilon_chip :: string
  delta_chip :: string
  noise_chip :: string
  clip_chip :: string
  attack_panel :: "attack_defense option"

record metrics_panel =
  auc_card :: card
  recall_card :: card
  privacy_budget_card :: card
  communication_cost_card :: card
  privacy_protection :: privacy_panel

datatype view =
  Spinner
| Page (status_alert: "alert option") (no_data_alert: "alert option")
       (metrics_view: "metrics_panel option")

text \<open>
  \<^verbatim>\<open>x?.toFixed(f)\<close> and \<^verbatim>\<open>x?.toExponential(f)\<close>: \<^verbatim>\<open>undefined\<close> (here \<open>None\<close>) when
  \<open>x\<close> is \<^verbatim>\<open>undefined\<close> or \<^verbatim>\<open>null\<close>.
\<close>

fun opt_toFixed :: "nat \<Rightarrow> field \<Rightarrow> string option" where
  "opt_toFixed f (Number x) = Some (toFixed f x)"
| "opt_toFixed f _ = None"

fun opt_toExponential :: "nat \<Rightarrow> field \<Rightarrow> string option" where
  "opt_toExponential f (Number x) = Some (toExponential f x)"
| "opt_toExponential f _ = None"

text \<open>
  \<^verbatim>\<open>a || b\<close> where \<open>a\<close> is a string or \<^verbatim>\<open>undefined\<close> and \<open>b\<close> ends up as text:
  \<open>b\<close> when \<open>a\<close> is \<^verbatim>\<open>undefined\<close> or the empty string.
\<close>

fun or_else :: "string option \<Rightarrow> string \<Rightarrow> string" where
  "or_else None b = b"
| "or_else (Some a) b = (if a = [] then b else a)"

text \<open>The letters \<open>\<epsilon>\<close> and \<open>\<delta>\<close> of the labels, as UTF-8 bytes.\<close>

definition epsilon_letter :: string where
  "epsilon_letter = [CHR 0xCE, CHR 0xB5]"

definition delta_letter :: string where
  "delta_letter = [CHR 0xCE, CHR 0xB4]"

text \<open>
  \<^verbatim>\<open>MetricCard\<close>: the improvement chip is rendered when
  \<^verbatim>\<open>improvement !== undefined && improvement > 0\<close>, with the label
  \<^verbatim>\<open>`${improvement > 0 ? '+' : ''}${improvement.toFixed(1)}%`\<close>; the subtitle when it is
  truthy. Under the guard \<open>improvement\<close> is a number (\<^verbatim>\<open>null > 0\<close> is false).
\<close>

definition MetricCard :: "string \<Rightarrow> string \<Rightarrow> field \<Rightarrow> string option \<Rightarrow> card" where
  "MetricCard title val improvement_prop subtitle =
     \<lparr>card_title = title,
      card_value = val,
      card_improvement =
        (if improvement_prop \<noteq> Undefined \<and> js_gt (to_number improvement_prop) (Num 0)
         then (case improvement_prop of
                 Number x \<Rightarrow>
                   Some ((if js_gt x (Num 0) then ''+'' else []) @ toFixed 1 x @ ''%'')
               | _ \<Rightarrow> None)
         else None),
      card_subtitle =
        (case subtitle of
           Some s \<Rightarrow> if s \<noteq> [] then Some s else None
         | None \<Rightarrow> None)\<rparr>"

text \<open>
  \<^verbatim>\<open>PrivacyMetrics\<close>: four chips, and the attack panel when \<^verbatim>\<open>attacks\<close> is there.
  \<^verbatim>\<open>attacks.membership_inference?.defense_success_rate\<close> is \<^verbatim>\<open>undefined\<close> when the
  object is missing, and \<^verbatim>\<open>undefined * 100\<close> is \<^verbatim>\<open>NaN\<close>.
\<close>

definition percent_text :: "field \<Rightarrow> string" where
  "percent_text x = toFixed 1 (js_mul (to_number x) (Num 100)) @ ''%''"

definition PrivacyMetrics :: "privacy_metrics_obj \<Rightarrow> privacy_attacks_obj option \<Rightarrow> privacy_panel" where
  "PrivacyMetrics privacy attacks =
     \<lparr>epsilon_chip = epsilon_letter @ '' = '' @ or_else (opt_toFixed 2 (epsilon privacy)) ''N/A'',
      delta_chip = delta_letter @ '' = '' @ or_else (opt_toExponential 2 (delta privacy)) ''N/A'',
      noise_chip = ''Noise: '' @ or_else (opt_toFixed 2 (noise_multiplier privacy)) ''N/A'',
      clip_chip = ''Clip: '' @ or_else (opt_toFixed 1 (l2_norm_clip privacy)) ''N/A'',
      attack_panel =
        (case attacks of
           None \<Rightarrow> None
         | Some a \<Rightarrow>
             Some \<lparr>overall_defense = percent_text (overall_defense_rate a),
                   membership_inference_defense =
                     percent_text (case membership_inference a of
                                     None \<Rightarrow> Undefined
                                   | Some mi \<Rightarrow> defense_success_rate mi),
                   model_inversion_defense =
                     percent_text (case model_inversion a of
                                     None \<Rightarrow> Undefined
                                   | Some mv \<Rightarrow> defense_score mv)\<rparr>)\<rparr>"

text \<open>The four headline cards and the privacy panel, rendered when \<^verbatim>\<open>metrics\<close> is there.\<close>

definition metrics_section :: "metrics_snapshot \<Rightarrow> metrics_panel" where
  "metrics_section m =
     \<lparr>auc_card =
        MetricCard ''Federated AUC''
          (or_else (opt_toFixed 4 (auc (federated_model m))) ''N/A'')
          (auc (improvement m)) None,
      recall_card =
        MetricCard ''Recall''
          (or_else (opt_toFixed 4 (recall (federated_model m))) ''N/A'')
          (recall (improvement m)) None,
      privacy_budget_card =
        MetricCard (''Privacy Budget ('' @ epsilon_letter @ '')'')
          (or_else (opt_toFixed 2 (epsilon (privacy_metrics m))) ''N/A'')
          Undefined (Some ''Lower is better''),
      communication_cost_card =
        MetricCard ''Communication Cost''
          (or_else (opt_toFixed 2 (communication_cost_mb m)) ''0'' @ '' MB'')
          Undefined (Some ''Per round''),
      privacy_protection = PrivacyMetrics (privacy_metrics m) (privacy_attacks m)\<rparr>"

text \<open>
  The status alert:
  \<^verbatim>\<open>
    severity={status.status === 'completed' ? 'success'
            : status.status === 'training' ? 'info'
            : status.status === 'error' ? 'error' : 'warning'}
    {status.message} {status.status === 'training' &&
                      `(${status.progress_percentage.toFixed(0)}%)`}
  \<close>
  The children are the message, a space, and the progress text when the tag is
  \<^verbatim>\<open>training\<close> (\<^verbatim>\<open>false\<close> renders nothing).
\<close>

definition status_banner :: "status_snapshot \<Rightarrow> alert" where
  "status_banner st =
     \<lparr>severity =
        (if status_snapshot.status st = ''completed'' then Success
         else if status_snapshot.status st = ''training'' then Info
         else if status_snapshot.status st = ''error'' then Error
         else Warning),
      children =
        message st @ '' '' @
        (if status_snapshot.status st = ''training''
         then ''('' @ toFixed 0 (progress_percentage st) @ ''%)''
         else [])\<rparr>"

definition no_data_banner :: alert where
  "no_data_banner =
     \<lparr>severity = Warning,
      children = ''No training data available. Please train the model first.''\<rparr>"

text \<open>
  \<^verbatim>\<open>error && !metrics\<close>: \<^verbatim>\<open>error\<close> is \<^verbatim>\<open>null\<close> or a string, and the empty string is
  falsy.
\<close>

definition truthy :: "string option \<Rightarrow> bool" where
  "truthy e = (case e of None \<Rightarrow> False | Some s \<Rightarrow> s \<noteq> [])"

definition Dashboard :: "(metrics_snapshot, status_snapshot) view_state \<Rightarrow> view" where
  "Dashboard vs =
     (if loading vs then Spinner
      else Page
        (case status vs of None \<Rightarrow> None | Some st \<Rightarrow> Some (status_banner st))
        (if truthy (error vs) \<and> metrics vs = None then Some no_data_banner else None)
        (case metrics vs of None \<Rightarrow> None | Some m \<Rightarrow> Some (metrics_section m)))"


section \<open>The poller\<close>

text \<open>
  The timers of the JavaScript runtime, on a virtual clock that counts milliseconds.
  \<^verbatim>\<open>setInterval(h, ms)\<close> registers a repeating timer, first due \<open>ms\<close> after the call, and
  returns its id; \<^verbatim>\<open>clearInterval(id)\<close> removes it. A handler is run with the time at
  which it fires and changes the world \<open>'w\<close> of the application.
\<close>

record 'w timer =
  timer_id :: nat
  handler :: "nat \<Rightarrow> 'w \<Rightarrow> 'w"
  period :: nat
  due :: nat

record 'w runtime =
  clock :: nat
  timers :: "'w timer list"
  next_id :: nat
  world :: 'w

definition setInterval :: "(nat \<Rightarrow> 'w \<Rightarrow> 'w) \<Rightarrow> nat \<Rightarrow> 'w runtime \<Rightarrow> nat \<times> 'w runtime" where
  "setInterval h ms rt =
     (next_id rt,
      rt\<lparr>timers := timers rt @
            [\<lparr>timer_id = next_id rt, handler = h, period = max 1 ms,
              due = clock rt + max 1 ms\<rparr>],
         next_id := Suc (next_id rt)\<rparr>)"

definition clearInterval :: "nat \<Rightarrow> 'w runtime \<Rightarrow> 'w runtime" where
  "clearInterval i rt = rt\<lparr>timers := filter (\<lambda>t. timer_id t \<noteq> i) (timers rt)\<rparr>"

text \<open>The timers that are due at \<open>now\<close> run, in order of registration, and are set again.\<close>

fun fire_due :: "nat \<Rightarrow> 'w timer list \<Rightarrow> 'w \<Rightarrow> 'w timer list \<times> 'w" where
  "fire_due now [] w = ([], w)"
| "fire_due now (t # ts) w =
     (if due t \<le> now
      then (let (ts', w') = fire_due now ts (handler t now w)
            in (t\<lparr>due := now + period t\<rparr> # ts', w'))
      else (let (ts', w') = fire_due now ts w
            in (t # ts', w')))"

text \<open>One millisecond passes; \<open>advance n\<close> lets \<open>n\<close> of them pass.\<close>

definition tick :: "'w runtime \<Rightarrow> 'w runtime" where
  "tick rt =
     (let now = Suc (clock rt);
          (ts, w) = fire_due now (timers rt) (world rt)
      in rt\<lparr>clock := now, timers := ts, world := w\<rparr>)"

fun advance :: "nat \<Rightarrow> 'w runtime \<Rightarrow> 'w runtime" where
  "advance 0 rt = rt"
| "advance (Suc n) rt = tick (advance n rt)"

text \<open>
  For the poller the world is the list of the times at which \<^verbatim>\<open>fetchData\<close> was called,
  that is, at which a fetch cycle was started.
\<close>

definition fetchData_called :: "nat \<Rightarrow> nat list \<Rightarrow> nat list" where
  "fetchData_called now started = started @ [now]"

text \<open>
  The effect of the component, run once when it is mounted, and the cleanup it returns,
  run when the component is removed:
  \<^verbatim>\<open>
    useEffect(() => {
      fetchData();
      const interval = setInterval(fetchData, 5000);
      return () => clearInterval(interval);
    }, []);
  \<close>
\<close>

definition useEffect_mount :: "nat list runtime \<Rightarrow> nat \<times> nat list runtime" where
  "useEffect_mount rt =
     setInterval fetchData_called 5000
       (rt\<lparr>world := fetchData_called (clock rt) (world rt)\<rparr>)"

definition useEffect_cleanup :: "nat \<Rightarrow> nat list runtime \<Rightarrow> nat list runtime" where
  "useEffect_cleanup interval rt = clearInterval interval rt"


section \<open>Rounding to a fixed number of decimal places\<close>

text \<open>
  The phrase of the specification, written out on its own: \<open>rounded_to f q\<close> is the decimal
  numeral, with exactly \<open>f\<close> digits after the point, of the multiple of \<open>10 ^ -f\<close> nearest
  to the magnitude of \<open>q\<close> (the larger of two), with the sign of \<open>q\<close> in front.
\<close>

fun pad_digits :: "nat \<Rightarrow> int \<Rightarrow> string" where
  "pad_digits 0 n = []"
| "pad_digits (Suc f) n = pad_digits f (n div 10) @ [digit_char (n mod 10)]"

definition decimal_numeral :: "nat \<Rightarrow> int \<Rightarrow> string" where
  "decimal_numeral f n =
     dec_digits (n div 10 ^ f) @ (if f = 0 then [] else ''.'' @ pad_digits f n)"

definition rounded_to :: "nat \<Rightarrow> rat \<Rightarrow> string" where
  "rounded_to f q =
     (if q < 0 then ''-'' else []) @ decimal_numeral f \<lfloor>\<bar>q\<bar> * 10 ^ f + 1 / 2\<rfloor>"

definition zero_pad :: "nat \<Rightarrow> string \<Rightarrow> string" where
  "zero_pad f m = (if length m \<le> f then replicate (f + 1 - length m) CHR ''0'' @ m else m)"


section \<open>An example payload\<close>

text \<open>
  A metrics payload used for concrete evaluations: AUC 0.95, recall 0.88, improvements
  3.7 and 0, epsilon 1.2, delta 0.00001, noise multiplier 1.1, clip norm 1.5,
  communication cost 1.234 MB, overall defense rate 0.07, membership-inference defense
  success rate 0.85, and no model-inversion result. Each number is the double nearest to
  the decimal.
\<close>

definition example_metrics :: metrics_snapshot where
  "example_metrics =
     \<lparr>federated_model = \<lparr>auc = Number (fl (95 / 100)), recall = Number (fl (88 / 100))\<rparr>,
      improvement = \<lparr>auc = Number (fl (37 / 10)), recall = Number (Num 0)\<rparr>,
      privacy_metrics =
        \<lparr>epsilon = Number (fl (12 / 10)), delta = Number (fl (1 / 100000)),
         noise_multiplier = Number (fl (11 / 10)), l2_norm_clip = Number (fl (3 / 2))\<rparr>,
      communication_cost_mb = Number (fl (1234 / 1000)),
      privacy_attacks =
        Some \<lparr>overall_defense_rate = Number (fl (7 / 100)),
              membership_inference = Some \<lparr>defense_success_rate = Number (fl (85 / 100))\<rparr>,
              model_inversion = None\<rparr>\<rparr>"


section \<open>Evaluating and characterising the number functions\<close>

lemma floor_rat_numeral_div [simp]:
  "\<lfloor>numeral a / numeral b :: rat\<rfloor> = numeral a div numeral b"
  by (metis floor_divide_of_int_eq of_int_numeral)

lemma ceiling_rat_numeral_div [simp]:
  "\<lceil>numeral a / numeral b :: rat\<rceil> = - (- numeral a div numeral b)"
  by (metis ceiling_def floor_divide_of_int_eq minus_divide_left of_int_minus of_int_numeral)

lemma digits_in_base: "n < b \<Longrightarrow> digits_in b n = [n]"
  by (simp add: digits_in.simps)

lemma digits_in_rec:
  "2 \<le> b \<Longrightarrow> b \<le> n \<Longrightarrow> digits_in b n = digits_in b (n div b) @ [n mod b]"
  by (subst digits_in.simps) simp

lemmas num_eval =
  fl_def ilog_def numdigits_def pow2_def pow10_def round_half_even_def round_half_up_def
  digits_in_base digits_in_rec dec_digits_def digit_char_def Let_def

lemmas text_eval = toFixed_def toExponential_def percent_text_def

lemma digits_in_nonempty: "digits_in b n \<noteq> []"
  by (subst digits_in.simps) simp

lemma dec_digits_nonempty: "dec_digits n \<noteq> []"
  by (simp add: dec_digits_def digits_in_nonempty)

lemma dec_digits_small: "n < 10 \<Longrightarrow> dec_digits n = [digit_char n]"
  by (simp add: dec_digits_def digits_in_base)

lemma dec_digits_rec:
  "10 \<le> n \<Longrightarrow> dec_digits n = dec_digits (n div 10) @ [digit_char (n mod 10)]"
  by (simp add: dec_digits_def digits_in_rec)

lemma length_pad_digits: "length (pad_digits f n) = f"
  by (induction f arbitrary: n) simp_all

lemma pad_digits_zero: "pad_digits f 0 = replicate f CHR ''0''"
proof (induction f)
  case 0
  show ?case by simp
next
  case (Suc f)
  have "digit_char 0 = CHR ''0''" by (simp add: digit_char_def)
  with Suc show ?case by (simp add: replicate_append_same)
qed

lemma zero_pad_snoc: "zero_pad (Suc f) (xs @ [c]) = zero_pad f xs @ [c]"
  by (simp add: zero_pad_def)

text \<open>
  Padding the digits of \<open>n\<close> to more than \<open>f\<close> places splits them into the digits of
  \<open>n div 10 ^ f\<close> and the \<open>f\<close> digits of the remainder.
\<close>

lemma zero_pad_dec_digits:
  "0 \<le> n \<Longrightarrow> zero_pad f (dec_digits n) = dec_digits (n div 10 ^ f) @ pad_digits f n"
proof (induction f arbitrary: n)
  case 0
  have "length (dec_digits n) \<noteq> 0" using dec_digits_nonempty [of n] by simp
  then show ?case by (simp add: zero_pad_def)
next
  case (Suc f)
  show ?case
  proof (cases "n < 10")
    case True
    have small: "n div (10 * 10 ^ f) = 0"
    proof -
      have "(1::int) \<le> 10 ^ f" by simp
      with True have "n < 10 * 10 ^ f" by linarith
      with Suc.prems show ?thesis by simp
    qed
    have d0: "n div 10 = 0" and m0: "n mod 10 = n"
      using True Suc.prems by simp_all
    have z: "digit_char 0 = CHR ''0''" by (simp add: digit_char_def)
    show ?thesis
      using True
      by (simp add: small d0 m0 dec_digits_small zero_pad_def pad_digits_zero z
          replicate_append_same)
  next
    case False
    then have ge: "10 \<le> n" by simp
    have nn: "0 \<le> n div 10" using Suc.prems by simp
    have dd: "n div 10 ^ Suc f = (n div 10) div 10 ^ f"
      by (simp add: zdiv_zmult2_eq)
    show ?thesis
      using Suc.IH [OF nn]
      by (simp only: dec_digits_rec [OF ge] zero_pad_snoc dd pad_digits.simps) simp
  qed
qed

text \<open>
  Below \<open>10 ^ 21\<close> in magnitude, \<^verbatim>\<open>toFixed(f)\<close> is rounding to \<open>f\<close> decimal places.
\<close>

lemma toFixed_rounded:
  assumes "\<bar>q\<bar> < 10 ^ 21"
  shows "toFixed f (Num q) = rounded_to f q"
proof -
  define n where "n = \<lfloor>\<bar>q\<bar> * 10 ^ f + 1 / 2\<rfloor>"
  have n0: "0 \<le> n" unfolding n_def by (simp add: floor_le_iff)
  define m' where "m' = zero_pad f (dec_digits n)"
  have m': "m' = dec_digits (n div 10 ^ f) @ pad_digits f n"
    unfolding m'_def by (rule zero_pad_dec_digits [OF n0])
  have len: "length m' - f = length (dec_digits (n div 10 ^ f))"
    by (simp add: m' length_pad_digits)
  have tk: "take (length m' - f) m' = dec_digits (n div 10 ^ f)"
    unfolding len by (simp add: m')
  have dr: "drop (length m' - f) m' = pad_digits f n"
    unfolding len by (simp add: m')
  have f0: "f = 0 \<Longrightarrow> dec_digits n = dec_digits (n div 10 ^ f)" by simp
  show ?thesis
    using assms tk dr f0
    by (simp add: toFixed_def rounded_to_def decimal_numeral_def round_half_up_def Let_def
        n_def [symmetric] m'_def [symmetric, unfolded zero_pad_def] del: One_nat_def)
qed


text \<open>
  \<open>ilog 2\<close> is the binary exponent, so \<open>fl\<close> rounds within half a unit in the last
  place: the result differs from the exact value by at most \<open>2 ^ -53\<close> of its magnitude
  (by at most \<open>2 ^ -1075\<close> in the subnormal range), and it has a significand of at most 53
  bits.
\<close>

lemma int_div_bounds:
  fixes b n :: int
  assumes "0 < b"
  shows "b * (n div b) \<le> n" and "n < b * (n div b) + b"
proof -
  have e: "b * (n div b) + n mod b = n" by (rule mult_div_mod_eq)
  have "0 \<le> n mod b" and "n mod b < b" using assms by simp_all
  with e show "b * (n div b) \<le> n" and "n < b * (n div b) + b" by linarith+
qed

lemma digits_in_bounds:
  assumes "2 \<le> b" and "1 \<le> n"
  shows "b ^ (length (digits_in b n) - 1) \<le> n \<and> n < b ^ length (digits_in b n)"
  using assms
proof (induction b n rule: digits_in.induct)
  case (1 b n)
  show ?case
  proof (cases "n < b")
    case True
    with "1.prems" show ?thesis by (simp add: digits_in_base)
  next
    case False
    with "1.prems" have ge: "b \<le> n" by simp
    have bpos: "0 < b" using "1.prems" by simp
    have "b div b \<le> n div b"
      using ge bpos by (rule zdiv_mono1)
    then have q1: "1 \<le> n div b"
      using bpos by simp
    define l where "l = length (digits_in b (n div b))"
    have l0: "l \<noteq> 0" unfolding l_def by (simp add: digits_in_nonempty)
    from "1.IH" [OF _ "1.prems"(1) q1] False "1.prems"
    have ih: "b ^ (l - 1) \<le> n div b" "n div b < b ^ l"
      unfolding l_def by simp_all
    have len: "length (digits_in b n) = Suc l"
      unfolding l_def using "1.prems" ge by (simp add: digits_in_rec)
    have "b * b ^ (l - 1) \<le> b * (n div b)"
      using ih(1) bpos by simp
    also have "\<dots> \<le> n"
      using int_div_bounds(1) [OF bpos] .
    finally have lo: "b ^ l \<le> n"
      using l0 by (cases l) simp_all
    have "n div b + 1 \<le> b ^ l" using ih(2) by simp
    then have "b * (n div b + 1) \<le> b * b ^ l"
      using bpos by simp
    moreover have "n < b * (n div b + 1)"
      using int_div_bounds(2) [OF bpos, of n] by (simp add: algebra_simps)
    ultimately have hi: "n < b ^ Suc l" by simp
    from lo hi show ?thesis by (simp add: len)
  qed
qed

lemma pow2_pos: "0 < pow2 e"
  by (simp add: pow2_def)

lemma pow2_add: "pow2 (a + b) = pow2 a * pow2 b"
proof -
  have "pow2 e = 2 powi e" for e
    by (simp add: pow2_def power_int_def field_simps)
  then show ?thesis by (simp add: power_int_add)
qed

lemma ilog2_bounds:
  assumes "0 < a"
  shows "pow2 (ilog 2 a) \<le> a \<and> a < pow2 (ilog 2 a + 1)"
proof (cases "1 \<le> a")
  case True
  define n where "n = \<lfloor>a\<rfloor>"
  have n1: "1 \<le> n" unfolding n_def using True by simp
  define l where "l = length (digits_in 2 n)"
  from digits_in_bounds [of 2 n] n1
  have b: "2 ^ (l - 1) \<le> n" "n < 2 ^ l" unfolding l_def by simp_all
  have l0: "l \<noteq> 0" unfolding l_def by (simp add: digits_in_nonempty)
  have e: "ilog 2 a = int l - 1"
    using True n1 by (simp add: ilog_def numdigits_def n_def [symmetric] l_def)
  have p1: "pow2 (int l - 1) = 2 ^ (l - 1)"
    using l0 by (simp add: pow2_def nat_diff_distrib')
  have p2: "pow2 (int l) = 2 ^ l"
    by (simp add: pow2_def)
  have "(of_int (2 ^ (l - 1)) :: rat) \<le> of_int n"
    using b(1) by (simp only: of_int_le_iff)
  also have "\<dots> \<le> a" unfolding n_def by simp
  finally have lo: "pow2 (int l - 1) \<le> a" by (simp add: p1)
  have "a < of_int n + 1" unfolding n_def by linarith
  also have "\<dots> \<le> of_int (2 ^ l)"
    using b(2) by (metis of_int_1 of_int_add of_int_le_iff zless_imp_add1_zle)
  finally have hi: "a < pow2 (int l)" by (simp add: p2)
  from lo hi show ?thesis by (simp add: e)
next
  case False
  then have a1: "a < 1" by simp
  define m where "m = \<lceil>1 / a\<rceil> - 1"
  have inv: "1 < 1 / a" using assms a1 by simp
  have m1: "1 \<le> m" unfolding m_def using inv by linarith
  have mlt: "of_int m < 1 / a" unfolding m_def by linarith
  have mge: "1 / a \<le> of_int m + 1" unfolding m_def by linarith
  define l where "l = length (digits_in 2 m)"
  from digits_in_bounds [of 2 m] m1
  have b: "2 ^ (l - 1) \<le> m" "m < 2 ^ l" unfolding l_def by simp_all
  have l0: "l \<noteq> 0" unfolding l_def by (simp add: digits_in_nonempty)
  have e: "ilog 2 a = - int l"
    using False m1 by (simp add: ilog_def numdigits_def m_def [symmetric] l_def)
  have p1: "pow2 (- int l) = 1 / 2 ^ l"
    using l0 by (simp add: pow2_def)
  have p2: "pow2 (1 - int l) = 1 / 2 ^ (l - 1)"
    using l0 by (cases l) (simp_all add: pow2_def nat_diff_distrib')
  have "1 / a \<le> of_int m + 1" by (rule mge)
  also have "\<dots> \<le> of_int (2 ^ l)"
    using b(2) by (metis of_int_1 of_int_add of_int_le_iff zless_imp_add1_zle)
  finally have "1 / a \<le> 2 ^ l" by simp
  then have lo: "1 / 2 ^ l \<le> a"
    using assms by (simp add: field_simps)
  have "(of_int (2 ^ (l - 1)) :: rat) \<le> of_int m"
    using b(1) by (simp only: of_int_le_iff)
  also have "\<dots> < 1 / a" by (rule mlt)
  finally have "2 ^ (l - 1) < 1 / a" by simp
  then have hi: "a < 1 / 2 ^ (l - 1)"
    using assms by (simp add: field_simps)
  from lo hi show ?thesis by (simp add: e p1 p2)
qed


lemma round_half_even_near: "\<bar>of_int (round_half_even x) - x\<bar> \<le> 1 / 2"
proof -
  have "of_int \<lfloor>x\<rfloor> \<le> x" and "x < of_int \<lfloor>x\<rfloor> + 1" by linarith+
  then show ?thesis
    by (auto simp add: round_half_even_def Let_def abs_le_iff)
qed

lemma fl_error:
  assumes "fl q = Num v"
  shows "\<bar>v - q\<bar> \<le> max (\<bar>q\<bar> / 2 ^ 53) (1 / 2 ^ 1075)"
proof (cases "q = 0")
  case True
  with assms show ?thesis by (simp add: fl_def)
next
  case False
  define a where "a = \<bar>q\<bar>"
  define e where "e = max (ilog 2 a) (- 1022)"
  define u where "u = pow2 (e - 52)"
  define w where "w = of_int (round_half_even (a / u)) * u"
  have a0: "0 < a" unfolding a_def using False by simp
  have u0: "0 < u" unfolding u_def by (rule pow2_pos)
  from assms False have v: "v = (if q < 0 then - w else w)"
    by (simp add: fl_def Let_def a_def [symmetric] e_def [symmetric] u_def [symmetric]
        w_def [symmetric] split: if_splits)
  have "\<bar>w - a\<bar> = \<bar>of_int (round_half_even (a / u)) - a / u\<bar> * u"
  proof -
    have "w - a = (of_int (round_half_even (a / u)) - a / u) * u"
      using u0 by (simp add: w_def field_simps)
    then show ?thesis using u0 by (simp add: abs_mult)
  qed
  also have "\<dots> \<le> (1 / 2) * u"
    using round_half_even_near [of "a / u"] u0 by (simp add: mult_right_mono)
  finally have near: "\<bar>w - a\<bar> \<le> u / 2" by simp
  have dist: "\<bar>v - q\<bar> = \<bar>w - a\<bar>"
    unfolding v a_def by (cases "q < 0") simp_all
  have ub: "u / 2 \<le> max (a / 2 ^ 53) (1 / 2 ^ 1075)"
  proof (cases "- 1022 \<le> ilog 2 a")
    case True
    then have "e = ilog 2 a" unfolding e_def by simp
    then have "u = pow2 (ilog 2 a) * pow2 (- 52)"
      unfolding u_def using pow2_add [of "ilog 2 a" "- 52"] by simp
    also have "\<dots> \<le> a * pow2 (- 52)"
      using ilog2_bounds [OF a0] pow2_pos [of "- 52"] by (simp add: mult_right_mono)
    finally have "u \<le> a / 2 ^ 52" by (simp add: pow2_def)
    then have "u / 2 \<le> a / 2 ^ 53" by simp
    then show ?thesis by simp
  next
    case False
    then have "e = - 1022" unfolding e_def by simp
    then have "u = 1 / 2 ^ 1074" unfolding u_def by (simp add: pow2_def)
    then have "u / 2 = 1 / 2 ^ 1075" by simp
    then show ?thesis by simp
  qed
  from near ub show ?thesis unfolding dist a_def by linarith
qed


lemma round_half_even_le:
  assumes "x \<le> of_int k"
  shows "round_half_even x \<le> k"
proof -
  have fl: "\<lfloor>x\<rfloor> \<le> k" using assms by (simp add: floor_le_iff)
  show ?thesis
  proof (cases "\<lfloor>x\<rfloor> = k")
    case True
    then have "x = of_int k" using assms by (metis of_int_floor_le order_antisym)
    then show ?thesis by (simp add: round_half_even_def)
  next
    case False
    with fl have "\<lfloor>x\<rfloor> + 1 \<le> k" by simp
    then show ?thesis by (simp add: round_half_even_def Let_def)
  qed
qed

lemma round_half_even_nonneg: "0 \<le> x \<Longrightarrow> 0 \<le> round_half_even x"
  by (simp add: round_half_even_def Let_def)

lemma fl_representable:
  assumes "fl q = Num v"
  shows "\<exists>n e. v = of_int n * pow2 e \<and> \<bar>n\<bar> \<le> 2 ^ 53 \<and> - 1074 \<le> e \<and> \<bar>v\<bar> < pow2 1024"
proof (cases "q = 0")
  case True
  with assms have "v = of_int 0 * pow2 0" by (simp add: fl_def)
  then show ?thesis by (intro exI [of _ 0]) (simp add: pow2_def)
next
  case False
  define a where "a = \<bar>q\<bar>"
  define e where "e = max (ilog 2 a) (- 1022)"
  define u where "u = pow2 (e - 52)"
  define n where "n = round_half_even (a / u)"
  have a0: "0 < a" unfolding a_def using False by simp
  have u0: "0 < u" unfolding u_def by (rule pow2_pos)
  from assms False
  have v: "v = (if q < 0 then - (of_int n * u) else of_int n * u)"
    and fin: "\<not> pow2 1024 \<le> of_int n * u"
    by (simp_all add: fl_def Let_def a_def [symmetric] e_def [symmetric] u_def [symmetric]
        n_def [symmetric] split: if_splits)
  have "a < pow2 (ilog 2 a + 1)" using ilog2_bounds [OF a0] by simp
  also have "\<dots> \<le> pow2 (e + 1)"
  proof -
    have "pow2 (e + 1) = pow2 (ilog 2 a + 1) * pow2 (e - ilog 2 a)"
      using pow2_add [of "ilog 2 a + 1" "e - ilog 2 a"] by (simp add: algebra_simps)
    moreover have "1 \<le> pow2 (e - ilog 2 a)"
      unfolding e_def by (simp add: pow2_def max_def)
    ultimately show ?thesis
      using pow2_pos [of "ilog 2 a + 1"] by simp
  qed
  also have "\<dots> = 2 ^ 53 * u"
  proof -
    have "pow2 (e + 1) = pow2 53 * pow2 (e - 52)"
      using pow2_add [of 53 "e - 52"] by (simp add: algebra_simps)
    moreover have "pow2 53 = 2 ^ 53" by (simp add: pow2_def)
    ultimately show ?thesis by (simp only: u_def)
  qed
  finally have "a / u < 2 ^ 53" using u0 by (simp add: field_simps)
  then have "a / u \<le> of_int (2 ^ 53)" by simp
  then have nhi: "n \<le> 2 ^ 53" unfolding n_def by (rule round_half_even_le)
  have nlo: "0 \<le> n"
    unfolding n_def using a0 u0 by (intro round_half_even_nonneg) simp
  have elo: "- 1074 \<le> e - 52" unfolding e_def by simp
  have mag: "\<bar>v\<bar> < pow2 1024"
    using fin nlo u0 unfolding v by (simp add: abs_mult)
  show ?thesis
  proof (cases "q < 0")
    case True
    with v have "v = of_int (- n) * pow2 (e - 52)" by (simp add: u_def)
    with nhi nlo elo mag show ?thesis by (intro exI [of _ "- n"] exI [of _ "e - 52"]) simp
  next
    case False
    with v have "v = of_int n * pow2 (e - 52)" by (simp add: u_def)
    with nhi nlo elo mag show ?thesis by (intro exI [of _ n] exI [of _ "e - 52"]) simp
  qed
qed


section \<open>Properties of the fetch cycle\<close>

lemma loading_fetchData: "loading (fetchData c s) = False"
  by (simp add: fetchData_def Let_def split: response.split option.split)

lemma loading_run_cycles_stays_false:
  "\<not> loading s \<Longrightarrow> \<not> loading (run_cycles cs s)"
  by (induction cs arbitrary: s) (simp_all add: loading_fetchData)

lemma loading_run_cycles_Cons: "loading (run_cycles (c # cs) s) = False"
  using loading_run_cycles_stays_false [of "fetchData c s" cs]
  by (simp add: loading_fetchData)

lemma stored_status_loaded:
  assumes "view_state.status (run_cycles cs initial_state) = Some st"
  shows "\<not> loading (run_cycles cs initial_state)"
proof (cases cs)
  case Nil
  with assms show ?thesis by (simp add: initial_state_def)
next
  case (Cons c rest)
  then show ?thesis by (simp only: loading_run_cycles_Cons) simp
qed

lemma stored_metrics_loaded:
  assumes "metrics (run_cycles cs initial_state) = Some m"
  shows "\<not> loading (run_cycles cs initial_state)"
proof (cases cs)
  case Nil
  with assms show ?thesis by (simp add: initial_state_def)
next
  case (Cons c rest)
  then show ?thesis by (simp only: loading_run_cycles_Cons) simp
qed

text \<open>
  C1. The loading flag starts true; after any sequence of completed fetch cycles it is
  true exactly when no cycle has completed yet, whatever the outcome of the cycles; and a
  cycle never produces a state with loading true, from any state.
\<close>

theorem loading_until_first_cycle:
  "loading (initial_state :: ('m, 's) view_state)
   \<and> (\<forall>cs :: ('m, 's) cycle list.
         loading (run_cycles cs initial_state) = (cs = []))
   \<and> (\<forall>(c :: ('m, 's) cycle) s cs. loading (run_cycles cs (fetchData c s)) = False)"
proof (intro conjI allI)
  show "loading (initial_state :: ('m, 's) view_state)"
    by (simp add: initial_state_def)
next
  fix cs :: "('m, 's) cycle list"
  show "loading (run_cycles cs initial_state) = (cs = [])"
  proof (cases cs)
    case Nil
    then show ?thesis by (simp add: initial_state_def)
  next
    case (Cons c rest)
    then show ?thesis by (simp only: loading_run_cycles_Cons) simp
  qed
next
  fix c :: "('m, 's) cycle" and s cs
  show "loading (run_cycles cs (fetchData c s)) = False"
    using loading_run_cycles_Cons [of c cs s] by simp
qed

text \<open>
  C2. When the status request of a cycle fails, the cycle stores the failure's message in
  the error field and clears the loading flag; the stored metrics and status are those held
  before the cycle, whether or not the metrics request succeeded.
\<close>

theorem status_failure_keeps_data:
  assumes "getStatus c = Rejected msg"
  shows "fetchData c s = s\<lparr>loading := False, error := Some msg\<rparr>
         \<and> error (fetchData c s) = Some msg
         \<and> metrics (fetchData c s) = metrics s
         \<and> status (fetchData c s) = status s"
  using assms by (simp add: fetchData_def)

theorem status_failure_keeps_data_witness:
  "getStatus \<lparr>getMetrics = Resolved (7::nat), getStatus = (Rejected ''Network Error'' :: nat response)\<rparr>
     = Rejected ''Network Error''
   \<and> fetchData \<lparr>getMetrics = Resolved (7::nat), getStatus = (Rejected ''Network Error'' :: nat response)\<rparr>
        \<lparr>metrics = Some 3, status = Some 4, loading = True, error = None\<rparr>
      = \<lparr>metrics = Some 3, status = Some 4, loading = False, error = Some ''Network Error''\<rparr>"
  using status_failure_keeps_data
    [of "\<lparr>getMetrics = Resolved (7::nat), getStatus = (Rejected ''Network Error'' :: nat response)\<rparr>"
        "''Network Error''"
        "\<lparr>metrics = Some 3, status = Some 4, loading = True, error = None\<rparr>"]
  by simp

text \<open>
  C3. When the metrics request of a cycle fails and its status request succeeds, the cycle
  completes as a success: the error field is null, the stored metrics are those held before
  the cycle (null if there were none), and the new status replaces the stored one.
\<close>

theorem metrics_failure_tolerated:
  assumes "getMetrics c = Rejected m" and "getStatus c = Resolved st"
  shows "error (fetchData c s) = None
         \<and> metrics (fetchData c s) = metrics s
         \<and> status (fetchData c s) = Some st
         \<and> fetchData c s = s\<lparr>status := Some st, error := None, loading := False\<rparr>"
  using assms by (simp add: fetchData_def metricsRes_def)

theorem metrics_failure_tolerated_witness:
  "getMetrics \<lparr>getMetrics = (Rejected ''404'' :: nat response), getStatus = Resolved (9::nat)\<rparr>
     = Rejected ''404''
   \<and> getStatus \<lparr>getMetrics = (Rejected ''404'' :: nat response), getStatus = Resolved (9::nat)\<rparr>
     = Resolved 9
   \<and> fetchData \<lparr>getMetrics = (Rejected ''404'' :: nat response), getStatus = Resolved (9::nat)\<rparr>
        \<lparr>metrics = None, status = Some 4, loading = True, error = Some ''old''\<rparr>
      = \<lparr>metrics = None, status = Some 9, loading = False, error = None\<rparr>"
  using metrics_failure_tolerated
    [of "\<lparr>getMetrics = (Rejected ''404'' :: nat response), getStatus = Resolved (9::nat)\<rparr>"
        "''404''" 9
        "\<lparr>metrics = None, status = Some 4, loading = True, error = Some ''old''\<rparr>"]
  by simp


section \<open>Properties of the poller\<close>

lemma period_boundary:
  assumes "Suc n mod p = 0"
  shows "Suc n div p = Suc (n div p) \<and> Suc n = p + p * (n div p)"
proof -
  have d: "Suc n div p = Suc (n div p)"
    using assms by (simp add: div_Suc)
  have "p * (Suc n div p) + Suc n mod p = Suc n"
    by (rule mult_div_mod_eq)
  with d assms show ?thesis by simp
qed

lemma period_inside:
  assumes "0 < p" and "Suc n mod p \<noteq> 0"
  shows "Suc n div p = n div p \<and> Suc n < p + p * (n div p)"
proof -
  have d: "Suc n div p = n div p"
    using assms by (simp add: div_Suc)
  have "p * (Suc n div p) + Suc n mod p = Suc n"
    by (rule mult_div_mod_eq)
  moreover have "Suc n mod p < p"
    using assms by simp
  ultimately show ?thesis using d by simp
qed

lemma fire_due_quiet_append:
  assumes "\<forall>t\<in>set os. \<forall>now w. handler t now w = w"
  shows "fire_due now (os @ ts) w =
           (map (\<lambda>t. if due t \<le> now then t\<lparr>due := now + period t\<rparr> else t) os
              @ fst (fire_due now ts w),
            snd (fire_due now ts w))"
  using assms by (induction os) (simp_all add: case_prod_beta)

lemma tick_with_quiet:
  assumes "timers r = os @ [p]" and "\<forall>t\<in>set os. \<forall>now w. handler t now w = w"
  shows "tick r =
           r\<lparr>clock := Suc (clock r),
             timers :=
               map (\<lambda>t. if due t \<le> Suc (clock r) then t\<lparr>due := Suc (clock r) + period t\<rparr>
                        else t) os
               @ (if due p \<le> Suc (clock r) then [p\<lparr>due := Suc (clock r) + period p\<rparr>]
                  else [p]),
             world := (if due p \<le> Suc (clock r) then handler p (Suc (clock r)) (world r)
                       else world r)\<rparr>"
  using assms(1) fire_due_quiet_append [OF assms(2), of "Suc (clock r)" "[p]" "world r"]
  by (simp add: tick_def)

lemma tick_quiet:
  assumes "\<forall>t\<in>set (timers r). \<forall>now w. handler t now w = w"
  shows "world (tick r) = world r
    \<and> map timer_id (timers (tick r)) = map timer_id (timers r)
    \<and> (\<forall>t\<in>set (timers (tick r)). \<forall>now w. handler t now w = w)"
  using fire_due_quiet_append [OF assms, of "Suc (clock r)" "[]" "world r"] assms
  by (auto simp add: tick_def comp_def if_distrib cong: if_cong)

lemma advance_quiet:
  assumes "\<forall>t\<in>set (timers r). \<forall>now w. handler t now w = w"
  shows "world (advance m r) = world r
    \<and> map timer_id (timers (advance m r)) = map timer_id (timers r)
    \<and> (\<forall>t\<in>set (timers (advance m r)). \<forall>now w. handler t now w = w)"
proof (induction m)
  case 0
  show ?case using assms by simp
next
  case (Suc m)
  then have q: "\<forall>t\<in>set (timers (advance m r)). \<forall>now w. handler t now w = w"
    by simp
  from tick_quiet [OF q] Suc show ?case by simp
qed

lemma advance_poller:
  assumes tm: "timers rt1 =
             os @ [\<lparr>timer_id = i, handler = fetchData_called, period = 5000,
                    due = clock rt1 + 5000\<rparr>]"
    and quiet: "\<forall>t\<in>set os. \<forall>now w. handler t now w = w"
  shows "\<exists>os'. map timer_id os' = map timer_id os
           \<and> (\<forall>t\<in>set os'. \<forall>now w. handler t now w = w)
           \<and> advance n rt1 =
               rt1\<lparr>clock := clock rt1 + n,
                   timers := os' @ [\<lparr>timer_id = i, handler = fetchData_called, period = 5000,
                                     due = clock rt1 + (5000 + 5000 * (n div 5000))\<rparr>],
                   world := world rt1
                            @ map (\<lambda>k. clock rt1 + 5000 * k) [1..<Suc (n div 5000)]\<rparr>"
    (is "\<exists>os'. ?ids os' \<and> ?quiet os' \<and> advance n rt1 = ?S n os'")
proof (induction n)
  case 0
  have "advance 0 rt1 = ?S 0 os" using tm by simp
  with quiet show ?case by blast
next
  case (Suc n)
  then obtain os' where ids: "?ids os'" and q: "?quiet os'"
    and st: "advance n rt1 = ?S n os'"
    by blast
  define os'' where
    "os'' = map (\<lambda>t. if due t \<le> Suc (clock rt1 + n)
                       then t\<lparr>due := Suc (clock rt1 + n) + period t\<rparr> else t) os'"
  have ids'': "?ids os''"
    using ids unfolding os''_def by (simp add: comp_def if_distrib cong: if_cong)
  have q'': "?quiet os''"
    using q unfolding os''_def by auto
  have tmS: "timers (?S n os') =
               os' @ [\<lparr>timer_id = i, handler = fetchData_called, period = 5000,
                       due = clock rt1 + (5000 + 5000 * (n div 5000))\<rparr>]"
    by simp
  note t = tick_with_quiet [OF tmS q]
  have step: "advance (Suc n) rt1 = tick (?S n os')"
    by (simp only: advance.simps st)
  have "tick (?S n os') = ?S (Suc n) os''"
  proof (cases "Suc n mod 5000 = 0")
    case True
    from period_boundary [OF True]
    have d: "Suc n div 5000 = Suc (n div 5000)" and e: "Suc n = 5000 + 5000 * (n div 5000)"
      by simp_all
    have fires: "clock rt1 + (5000 + 5000 * (n div 5000)) \<le> Suc (clock rt1 + n)"
      using e by linarith
    have now: "Suc (clock rt1 + n) = clock rt1 + 5000 * Suc (n div 5000)"
      using e by simp
    show ?thesis
      by (subst t) (simp add: fires d now fetchData_called_def os''_def)
  next
    case False
    from period_inside [OF _ False]
    have d: "Suc n div 5000 = n div 5000" and e: "Suc n < 5000 + 5000 * (n div 5000)"
      by simp_all
    have waits: "\<not> clock rt1 + (5000 + 5000 * (n div 5000)) \<le> Suc (clock rt1 + n)"
      using e by linarith
    show ?thesis
      by (subst t) (simp add: waits d os''_def)
  qed
  with step have "advance (Suc n) rt1 = ?S (Suc n) os''" by simp
  with ids'' q'' show ?case by blast
qed

text \<open>
  C4. When the effect runs, a fetch cycle is started at once and then one every 5000 ms:
  after \<open>n\<close> ms the cycles started are those at the times
  \<open>t, t + 5000, \<dots>, t + 5000 * (n div 5000)\<close>, where \<open>t\<close> is the time of the mount. The
  cleanup removes the timer of the effect, and however much time passes after it no
  further cycle is started. The other timers of the page may be any whose handlers leave
  the poller alone.
\<close>

theorem poller_schedule:
  assumes "\<forall>t\<in>set (timers rt). timer_id t < next_id rt \<and> (\<forall>now w. handler t now w = w)"
    and "useEffect_mount rt = (interval, rt1)"
  shows "world (advance n rt1)
           = world rt @ map (\<lambda>k. clock rt + 5000 * k) [0..<Suc (n div 5000)]
    \<and> interval \<notin> timer_id ` set (timers (useEffect_cleanup interval (advance n rt1)))
    \<and> world (advance m (useEffect_cleanup interval (advance n rt1))) = world (advance n rt1)"
proof -
  have i: "interval = next_id rt"
    using assms(2) by (auto simp add: useEffect_mount_def setInterval_def)
  have rt1: "rt1 = rt\<lparr>world := world rt @ [clock rt],
                       timers := timers rt @
                                 [\<lparr>timer_id = next_id rt, handler = fetchData_called,
                                   period = 5000, due = clock rt + 5000\<rparr>],
                       next_id := Suc (next_id rt)\<rparr>"
    using assms(2) by (auto simp add: useEffect_mount_def setInterval_def fetchData_called_def)
  have tm: "timers rt1 =
              timers rt @ [\<lparr>timer_id = next_id rt, handler = fetchData_called, period = 5000,
                            due = clock rt1 + 5000\<rparr>]"
    and ck: "clock rt1 = clock rt" and wd: "world rt1 = world rt @ [clock rt]"
    by (simp_all add: rt1)
  have quiet: "\<forall>t\<in>set (timers rt). \<forall>now w. handler t now w = w"
    using assms(1) by blast
  from advance_poller [OF tm quiet, of n]
  obtain os' where ids: "map timer_id os' = map timer_id (timers rt)"
    and q: "\<forall>t\<in>set os'. \<forall>now w. handler t now w = w"
    and adv: "advance n rt1 =
               rt1\<lparr>clock := clock rt1 + n,
                   timers := os' @ [\<lparr>timer_id = next_id rt, handler = fetchData_called,
                                     period = 5000,
                                     due = clock rt1 + (5000 + 5000 * (n div 5000))\<rparr>],
                   world := world rt1
                            @ map (\<lambda>k. clock rt1 + 5000 * k) [1..<Suc (n div 5000)]\<rparr>"
    by blast
  have up: "[0..<Suc (n div 5000)] = 0 # [1..<Suc (n div 5000)]"
    by (simp add: upt_conv_Cons del: upt_Suc)
  have w: "world (advance n rt1)
             = world rt @ map (\<lambda>k. clock rt + 5000 * k) [0..<Suc (n div 5000)]"
    unfolding up by (simp add: adv ck wd del: upt_Suc)
  have others: "\<forall>t\<in>set os'. timer_id t \<noteq> next_id rt"
  proof
    fix t assume "t \<in> set os'"
    then have "timer_id t \<in> set (map timer_id os')" by simp
    then have "timer_id t \<in> set (map timer_id (timers rt))" by (simp only: ids)
    then obtain t' where "t' \<in> set (timers rt)" and "timer_id t' = timer_id t" by auto
    with assms(1) show "timer_id t \<noteq> next_id rt" by force
  qed
  have cleaned: "timers (useEffect_cleanup interval (advance n rt1)) = os'"
    using others by (simp add: adv useEffect_cleanup_def clearInterval_def i filter_id_conv)
  have gone: "interval \<notin> timer_id ` set (timers (useEffect_cleanup interval (advance n rt1)))"
  proof -
    have "next_id rt \<notin> timer_id ` set os'" using others by auto
    then show ?thesis by (simp add: i cleaned [unfolded i])
  qed
  have q': "\<forall>t\<in>set (timers (useEffect_cleanup interval (advance n rt1))).
              \<forall>now w. handler t now w = w"
    unfolding cleaned by (rule q)
  have still: "world (advance m (useEffect_cleanup interval (advance n rt1)))
                 = world (advance n rt1)"
    using advance_quiet [OF q', of m]
    by (simp add: useEffect_cleanup_def clearInterval_def)
  from w gone still show ?thesis by simp
qed

theorem poller_schedule_witness:
  "world (advance 12000 (snd (useEffect_mount
      \<lparr>clock = 100,
       timers = [\<lparr>timer_id = 3, handler = (\<lambda>now w. w), period = 1000, due = 400\<rparr>],
       next_id = 7, world = []\<rparr>)))
     = [100, 5100, 10100]
   \<and> world (advance 60000
         (useEffect_cleanup
            (fst (useEffect_mount
               \<lparr>clock = 100,
                timers = [\<lparr>timer_id = 3, handler = (\<lambda>now w. w), period = 1000, due = 400\<rparr>],
                next_id = 7, world = []\<rparr>))
            (advance 12000 (snd (useEffect_mount
               \<lparr>clock = 100,
                timers = [\<lparr>timer_id = 3, handler = (\<lambda>now w. w), period = 1000, due = 400\<rparr>],
                next_id = 7, world = []\<rparr>)))))
     = [100, 5100, 10100]"
proof -
  have l: "[0..<3::nat] = [0, 1, 2]"
    by (simp add: numeral_3_eq_3)
  show ?thesis
    using poller_schedule
      [of "\<lparr>clock = 100,
            timers = [\<lparr>timer_id = 3, handler = (\<lambda>now w. w), period = 1000, due = 400\<rparr>],
            next_id = 7, world = []\<rparr>"
          "fst (useEffect_mount
             \<lparr>clock = 100,
              timers = [\<lparr>timer_id = 3, handler = (\<lambda>now w. w), period = 1000, due = 400\<rparr>],
              next_id = 7, world = []\<rparr>)"
          "snd (useEffect_mount
             \<lparr>clock = 100,
              timers = [\<lparr>timer_id = 3, handler = (\<lambda>now w. w), period = 1000, due = 400\<rparr>],
              next_id = 7, world = []\<rparr>)"
          12000 60000]
    by (simp add: l del: upt_Suc)
qed


section \<open>Properties of the rendering\<close>

lemma to_string_large_nonempty: "to_string_large x \<noteq> []"
  by (simp add: to_string_large_def Let_def split: prod.split)

lemma toFixed_nonempty: "toFixed f x \<noteq> []"
  by (cases x) (simp_all add: toFixed_def Let_def to_string_large_nonempty dec_digits_nonempty)

lemma toExponential_nonempty: "toExponential f x \<noteq> []"
  by (cases x) (simp_all add: toExponential_def Let_def split: prod.split)

lemma or_else_toFixed:
  "or_else (opt_toFixed f x) d = (case x of Number n \<Rightarrow> toFixed f n | _ \<Rightarrow> d)"
  by (cases x) (simp_all add: toFixed_nonempty)

lemma or_else_toExponential:
  "or_else (opt_toExponential f x) d = (case x of Number n \<Rightarrow> toExponential f n | _ \<Rightarrow> d)"
  by (cases x) (simp_all add: toExponential_nonempty)

lemma Dashboard_loaded:
  "\<not> loading vs \<Longrightarrow>
   Dashboard vs =
     Page (map_option status_banner (view_state.status vs))
          (if truthy (error vs) \<and> metrics vs = None then Some no_data_banner else None)
          (map_option metrics_section (metrics vs))"
  by (simp add: Dashboard_def split: option.split)

text \<open>
  C5. A stored status snapshot, in a state reached by fetch cycles from the initial state
  or in any state that is not loading, is rendered as the status alert, and the severity
  of the alert is fixed by the status tag: \<^verbatim>\<open>completed\<close> gives success, \<^verbatim>\<open>training\<close>
  gives info, \<^verbatim>\<open>error\<close> gives error, and every other tag gives warning.
\<close>

theorem status_banner_severity:
  assumes "view_state.status vs = Some st"
    and "\<not> loading vs \<or> (\<exists>cs. vs = run_cycles cs initial_state)"
  shows "status_alert (Dashboard vs) = Some (status_banner st)
    \<and> (status_snapshot.status st = ''completed'' \<longrightarrow> severity (status_banner st) = Success)
    \<and> (status_snapshot.status st = ''training'' \<longrightarrow> severity (status_banner st) = Info)
    \<and> (status_snapshot.status st = ''error'' \<longrightarrow> severity (status_banner st) = Error)
    \<and> (status_snapshot.status st \<notin> {''completed'', ''training'', ''error''}
         \<longrightarrow> severity (status_banner st) = Warning)"
proof -
  from assms have "\<not> loading vs"
    by (auto dest: stored_status_loaded)
  with assms(1) show ?thesis
    by (simp add: Dashboard_loaded status_banner_def)
qed

theorem status_banner_severity_witness:
  "status_alert (Dashboard (run_cycles
      [\<lparr>getMetrics = Rejected ''Not Found'',
        getStatus = Resolved \<lparr>status_snapshot.status = ''idle'', message = ''Waiting'',
                               progress_percentage = Num 0\<rparr>\<rparr>]
      initial_state))
   = Some \<lparr>severity = Warning, children = ''Waiting ''\<rparr>"
proof -
  have st: "view_state.status (run_cycles
      [\<lparr>getMetrics = (Rejected ''Not Found'' :: metrics_snapshot response),
        getStatus = Resolved \<lparr>status_snapshot.status = ''idle'', message = ''Waiting'',
                               progress_percentage = Num 0\<rparr>\<rparr>]
      initial_state)
    = Some \<lparr>status_snapshot.status = ''idle'', message = ''Waiting'',
             progress_percentage = Num 0\<rparr>"
    by (simp add: fetchData_def)
  show ?thesis
    using status_banner_severity [OF st disjI2, OF exI, OF refl]
    by (simp add: status_banner_def)
qed

text \<open>
  C7. For a stored status snapshot (in a state reached by fetch cycles, or any state that
  is not loading), the text of the status alert is the message and a space, followed by
  the progress in parentheses, formatted by \<^verbatim>\<open>toFixed(0)\<close> and followed by a percent sign, exactly
  when the tag is \<^verbatim>\<open>training\<close>; for any other tag nothing follows the space. For a finite
  progress below \<open>10 ^ 21\<close> the digits are the progress rounded to zero decimal places, and
  for the progress 42.3 (the double nearest to it) the text ends in \<^verbatim>\<open>(42%)\<close>.
\<close>

theorem status_banner_progress_text:
  assumes "view_state.status vs = Some st"
    and "\<not> loading vs \<or> (\<exists>cs. vs = run_cycles cs initial_state)"
  shows "status_alert (Dashboard vs) = Some (status_banner st)
    \<and> (status_snapshot.status st = ''training'' \<longrightarrow>
         children (status_banner st)
           = message st @ '' ('' @ toFixed 0 (progress_percentage st) @ ''%)'')
    \<and> (status_snapshot.status st \<noteq> ''training'' \<longrightarrow>
         children (status_banner st) = message st @ '' '')
    \<and> (\<forall>q. status_snapshot.status st = ''training'' \<longrightarrow> progress_percentage st = Num q \<longrightarrow>
           \<bar>q\<bar> < 10 ^ 21 \<longrightarrow>
           children (status_banner st) = message st @ '' ('' @ rounded_to 0 q @ ''%)'')
    \<and> (status_snapshot.status st = ''training'' \<longrightarrow> progress_percentage st = fl (423 / 10) \<longrightarrow>
         children (status_banner st) = message st @ '' (42%)'')"
proof -
  have ex: "toFixed 0 (fl (423 / 10)) = ''42''"
    by (simp add: num_eval text_eval)
  from assms have "\<not> loading vs"
    by (auto dest: stored_status_loaded)
  with assms(1) show ?thesis
    by (simp add: Dashboard_loaded status_banner_def toFixed_rounded ex)
qed

theorem status_banner_progress_text_witness:
  "status_alert (Dashboard (run_cycles
      [\<lparr>getMetrics = Rejected ''Not Found'',
        getStatus = Resolved \<lparr>status_snapshot.status = ''training'',
                               message = ''Round 3 of 10'',
                               progress_percentage = fl (423 / 10)\<rparr>\<rparr>]
      initial_state))
   = Some \<lparr>severity = Info, children = ''Round 3 of 10 (42%)''\<rparr>"
proof -
  have st: "view_state.status (run_cycles
      [\<lparr>getMetrics = (Rejected ''Not Found'' :: metrics_snapshot response),
        getStatus = Resolved \<lparr>status_snapshot.status = ''training'',
                               message = ''Round 3 of 10'',
                               progress_percentage = fl (423 / 10)\<rparr>\<rparr>]
      initial_state)
    = Some \<lparr>status_snapshot.status = ''training'', message = ''Round 3 of 10'',
             progress_percentage = fl (423 / 10)\<rparr>"
    by (simp add: fetchData_def)
  show ?thesis
    using status_banner_progress_text [OF st disjI2, OF exI, OF refl]
    by (simp add: status_banner_def)
qed

text \<open>
  C8, as stated, fails for an empty error message. A status request that fails with an
  \<^verbatim>\<open>Error\<close> whose message is the empty string leaves the state loaded, without metrics and
  with the error field set (to \<^verbatim>\<open>""\<close>, which is not \<^verbatim>\<open>null\<close>), and the warning is not
  rendered, because \<^verbatim>\<open>error && !metrics\<close> tests the truthiness of \<^verbatim>\<open>error\<close>.
\<close>

theorem no_data_banner_empty_message_counterexample:
  "fetchData \<lparr>getMetrics = Rejected ''Network Error'', getStatus = Rejected ''''\<rparr>
     (initial_state :: (metrics_snapshot, status_snapshot) view_state)
   = \<lparr>metrics = None, status = None, loading = False, error = Some ''''\<rparr>
   \<and> error \<lparr>metrics = None :: metrics_snapshot option, status = None :: status_snapshot option,
             loading = False, error = Some ''''\<rparr> \<noteq> None
   \<and> no_data_alert (Dashboard
        \<lparr>metrics = None, status = None, loading = False, error = Some ''''\<rparr>) = None"
  by (simp add: fetchData_def initial_state_def Dashboard_def truthy_def)

text \<open>
  C8, amended. After loading is false, the fixed warning that asks the user to train the
  model first is rendered if and only if the stored metrics are null and the error field
  holds a non-empty message.
\<close>

theorem no_data_banner_iff:
  assumes "\<not> loading vs"
  shows "(no_data_alert (Dashboard vs) \<noteq> None)
           = (metrics vs = None \<and> (\<exists>msg. error vs = Some msg \<and> msg \<noteq> []))
    \<and> no_data_alert (Dashboard vs)
           = (if metrics vs = None \<and> (\<exists>msg. error vs = Some msg \<and> msg \<noteq> [])
              then Some no_data_banner else None)"
  using assms by (auto simp add: Dashboard_loaded truthy_def split: option.splits)

theorem no_data_banner_iff_witness:
  "no_data_alert (Dashboard
      \<lparr>metrics = None, status = None, loading = False, error = Some ''Network Error''\<rparr>)
   = Some \<lparr>severity = Warning,
            children = ''No training data available. Please train the model first.''\<rparr>"
  using no_data_banner_iff
    [of "\<lparr>metrics = None, status = None, loading = False, error = Some ''Network Error''\<rparr>"]
  by (simp add: no_data_banner_def)

text \<open>
  C9. For a stored metrics snapshot (in a state reached by fetch cycles, or any state that
  is not loading) that has no \<^verbatim>\<open>privacy_metrics.epsilon\<close>
  (\<^verbatim>\<open>undefined\<close> or \<^verbatim>\<open>null\<close>), the value of the privacy-budget card is \<^verbatim>\<open>N/A\<close> and the
  label of the epsilon chip is the letter epsilon followed by \<^verbatim>\<open> = N/A\<close>.
\<close>

theorem epsilon_absent_shows_NA:
  assumes "metrics vs = Some m"
    and "\<not> loading vs \<or> (\<exists>cs. vs = run_cycles cs initial_state)"
    and "epsilon (privacy_metrics m) = Undefined \<or> epsilon (privacy_metrics m) = Null"
  shows "metrics_view (Dashboard vs) = Some (metrics_section m)
    \<and> card_value (privacy_budget_card (metrics_section m)) = ''N/A''
    \<and> epsilon_chip (privacy_protection (metrics_section m)) = epsilon_letter @ '' = N/A''"
proof -
  from assms(1,2) have "\<not> loading vs"
    by (auto dest: stored_metrics_loaded)
  with assms(1,3) show ?thesis
    by (auto simp add: Dashboard_loaded metrics_section_def MetricCard_def PrivacyMetrics_def)
qed

theorem epsilon_absent_shows_NA_witness:
  "card_value (privacy_budget_card (the (metrics_view (Dashboard (run_cycles
      [\<lparr>getMetrics = Resolved (example_metrics\<lparr>privacy_metrics :=
                       (privacy_metrics example_metrics)\<lparr>epsilon := Undefined\<rparr>\<rparr>),
        getStatus = Rejected ''Network Error''\<rparr>,
       \<lparr>getMetrics = Resolved (example_metrics\<lparr>privacy_metrics :=
                       (privacy_metrics example_metrics)\<lparr>epsilon := Undefined\<rparr>\<rparr>),
        getStatus = Resolved \<lparr>status_snapshot.status = ''completed'', message = ''Done'',
                               progress_percentage = Num 100\<rparr>\<rparr>]
      initial_state))))) = ''N/A''
   \<and> epsilon_chip (privacy_protection (the (metrics_view (Dashboard (run_cycles
      [\<lparr>getMetrics = Resolved (example_metrics\<lparr>privacy_metrics :=
                       (privacy_metrics example_metrics)\<lparr>epsilon := Undefined\<rparr>\<rparr>),
        getStatus = Rejected ''Network Error''\<rparr>,
       \<lparr>getMetrics = Resolved (example_metrics\<lparr>privacy_metrics :=
                       (privacy_metrics example_metrics)\<lparr>epsilon := Undefined\<rparr>\<rparr>),
        getStatus = Resolved \<lparr>status_snapshot.status = ''completed'', message = ''Done'',
                               progress_percentage = Num 100\<rparr>\<rparr>]
      initial_state))))) = [CHR 0xCE, CHR 0xB5] @ '' = N/A''"
proof -
  have m: "metrics (run_cycles
      [\<lparr>getMetrics = Resolved (example_metrics\<lparr>privacy_metrics :=
                       (privacy_metrics example_metrics)\<lparr>epsilon := Undefined\<rparr>\<rparr>),
        getStatus = Rejected ''Network Error''\<rparr>,
       \<lparr>getMetrics = Resolved (example_metrics\<lparr>privacy_metrics :=
                       (privacy_metrics example_metrics)\<lparr>epsilon := Undefined\<rparr>\<rparr>),
        getStatus = Resolved \<lparr>status_snapshot.status = ''completed'', message = ''Done'',
                               progress_percentage = Num 100\<rparr>\<rparr>]
      initial_state)
    = Some (example_metrics\<lparr>privacy_metrics :=
              (privacy_metrics example_metrics)\<lparr>epsilon := Undefined\<rparr>\<rparr>)"
    by (simp add: fetchData_def metricsRes_def)
  show ?thesis
    using epsilon_absent_shows_NA [OF m disjI2, OF exI, OF refl]
    by (simp add: epsilon_letter_def)
qed

lemma js_gt_zero_Num: "js_gt x (Num 0) \<Longrightarrow> x = PosInfinity \<or> (\<exists>q. x = Num q \<and> 0 < q)"
  by (cases x) simp_all

text \<open>
  C10. The improvement chip of a metric card is rendered if and only if the improvement is
  a number that is greater than zero; zero, negative numbers, \<^verbatim>\<open>NaN\<close>, \<^verbatim>\<open>null\<close> and
  \<^verbatim>\<open>undefined\<close> give no chip. The label of a rendered chip is a plus sign, the improvement
  formatted by \<^verbatim>\<open>toFixed(1)\<close>, and a percent sign; for a finite improvement below
  \<open>10 ^ 21\<close> that is the improvement rounded to one decimal place.
\<close>

theorem improvement_chip_rule:
  "card_improvement (MetricCard t v imp sub)
     = (case imp of
          Number x \<Rightarrow> if js_gt x (Num 0) then Some (''+'' @ toFixed 1 x @ ''%'') else None
        | _ \<Rightarrow> None)
   \<and> (card_improvement (MetricCard t v imp sub) \<noteq> None)
       = (\<exists>x. imp = Number x \<and> js_gt x (Num 0))
   \<and> (\<forall>q. imp = Number (Num q) \<longrightarrow> q \<le> 0 \<longrightarrow> card_improvement (MetricCard t v imp sub) = None)
   \<and> (\<forall>q. imp = Number (Num q) \<longrightarrow> 0 < q \<longrightarrow> q < 10 ^ 21 \<longrightarrow>
         card_improvement (MetricCard t v imp sub) = Some (''+'' @ rounded_to 1 q @ ''%''))"
  by (cases imp) (auto simp add: MetricCard_def toFixed_rounded)

theorem improvement_chip_rule_witness:
  "card_improvement (MetricCard ''Federated AUC'' ''0.9500'' (Number (fl (37 / 10))) None)
     = Some ''+3.7%''
   \<and> card_improvement (MetricCard ''Recall'' ''0.8800'' (Number (Num 0)) None) = None"
proof -
  have v: "fl (37 / 10) = Num (4165829655317709 / 1125899906842624)"
    by (simp add: num_eval)
  have r: "rounded_to 1 (4165829655317709 / 1125899906842624) = ''3.7''"
    by (simp add: rounded_to_def decimal_numeral_def num_eval)
  have pos: "card_improvement
               (MetricCard ''Federated AUC'' ''0.9500''
                  (Number (Num (4165829655317709 / 1125899906842624))) None)
             = Some (''+'' @ rounded_to 1 (4165829655317709 / 1125899906842624) @ ''%'')"
    by (rule improvement_chip_rule
          [THEN conjunct2, THEN conjunct2, THEN conjunct2, rule_format, OF refl]) simp_all
  have zero: "card_improvement (MetricCard ''Recall'' ''0.8800'' (Number (Num 0)) None) = None"
    by (rule improvement_chip_rule
          [THEN conjunct2, THEN conjunct2, THEN conjunct1, rule_format, OF refl]) simp
  show ?thesis
    using pos zero by (simp only: v r) simp
qed

text \<open>
  C6, as stated, fails for the communication cost: when \<^verbatim>\<open>communication_cost_mb\<close> is
  absent, the card shows \<^verbatim>\<open>0 MB\<close> and not \<^verbatim>\<open>N/A\<close>, because the fallback of that
  field is \<^verbatim>\<open>|| 0\<close>.
\<close>

theorem absent_field_not_NA_counterexample:
  "communication_cost_mb (example_metrics\<lparr>communication_cost_mb := Undefined\<rparr>) = Undefined
   \<and> card_value (communication_cost_card
         (metrics_section (example_metrics\<lparr>communication_cost_mb := Undefined\<rparr>))) = ''0 MB''
   \<and> card_value (communication_cost_card
         (metrics_section (example_metrics\<lparr>communication_cost_mb := Undefined\<rparr>))) \<noteq> ''N/A''"
  by (simp add: metrics_section_def MetricCard_def)

text \<open>
  C6, amended. For every metrics snapshot: the AUC and recall cards (4 decimals), the
  privacy-budget card and the epsilon chip (2 decimals), the noise chip (2 decimals) and the
  clip chip (1 decimal) show the field formatted by \<^verbatim>\<open>toFixed\<close> when it is a number and
  \<^verbatim>\<open>N/A\<close> when it is absent; the delta chip shows the field in exponent notation with two
  fraction digits (\<^verbatim>\<open>toExponential(2)\<close>), or \<^verbatim>\<open>N/A\<close> when it is absent; the
  communication-cost card shows the field with 2 decimals followed by \<^verbatim>\<open> MB\<close>, and
  \<^verbatim>\<open>0 MB\<close> when it is absent; each attack-defense percentage whose field is a number
  shows the double product of the field and 100 with 1 decimal, followed by a percent sign.
  For a finite number below \<open>10 ^ 21\<close> in magnitude, \<^verbatim>\<open>toFixed(f)\<close> is the number rounded
  to \<open>f\<close> decimal places, and a finite double product differs from the exact product by at
  most \<open>2 ^ -53\<close> of its magnitude (\<open>2 ^ -1075\<close> in the subnormal range).
\<close>

theorem numeric_fields_display:
  "card_value (auc_card (metrics_section m))
     = (case auc (federated_model m) of Number x \<Rightarrow> toFixed 4 x | _ \<Rightarrow> ''N/A'')
   \<and> card_value (recall_card (metrics_section m))
     = (case recall (federated_model m) of Number x \<Rightarrow> toFixed 4 x | _ \<Rightarrow> ''N/A'')
   \<and> card_value (privacy_budget_card (metrics_section m))
     = (case epsilon (privacy_metrics m) of Number x \<Rightarrow> toFixed 2 x | _ \<Rightarrow> ''N/A'')
   \<and> card_value (communication_cost_card (metrics_section m))
     = (case communication_cost_mb m of Number x \<Rightarrow> toFixed 2 x @ '' MB'' | _ \<Rightarrow> ''0 MB'')
   \<and> epsilon_chip (privacy_protection (metrics_section m))
     = epsilon_letter @ '' = '' @
       (case epsilon (privacy_metrics m) of Number x \<Rightarrow> toFixed 2 x | _ \<Rightarrow> ''N/A'')
   \<and> delta_chip (privacy_protection (metrics_section m))
     = delta_letter @ '' = '' @
       (case delta (privacy_metrics m) of Number x \<Rightarrow> toExponential 2 x | _ \<Rightarrow> ''N/A'')
   \<and> noise_chip (privacy_protection (metrics_section m))
     = ''Noise: '' @
       (case noise_multiplier (privacy_metrics m) of Number x \<Rightarrow> toFixed 2 x | _ \<Rightarrow> ''N/A'')
   \<and> clip_chip (privacy_protection (metrics_section m))
     = ''Clip: '' @
       (case l2_norm_clip (privacy_metrics m) of Number x \<Rightarrow> toFixed 1 x | _ \<Rightarrow> ''N/A'')
   \<and> (\<forall>a x. privacy_attacks m = Some a \<longrightarrow> overall_defense_rate a = Number x \<longrightarrow>
          map_option overall_defense (attack_panel (privacy_protection (metrics_section m)))
            = Some (toFixed 1 (js_mul x (Num 100)) @ ''%''))
   \<and> (\<forall>a mi x. privacy_attacks m = Some a \<longrightarrow> membership_inference a = Some mi \<longrightarrow>
          defense_success_rate mi = Number x \<longrightarrow>
          map_option membership_inference_defense
              (attack_panel (privacy_protection (metrics_section m)))
            = Some (toFixed 1 (js_mul x (Num 100)) @ ''%''))
   \<and> (\<forall>a mv x. privacy_attacks m = Some a \<longrightarrow> model_inversion a = Some mv \<longrightarrow>
          defense_score mv = Number x \<longrightarrow>
          map_option model_inversion_defense
              (attack_panel (privacy_protection (metrics_section m)))
            = Some (toFixed 1 (js_mul x (Num 100)) @ ''%''))
   \<and> (\<forall>f q. \<bar>q\<bar> < 10 ^ 21 \<longrightarrow> toFixed f (Num q) = rounded_to f q)
   \<and> (\<forall>q. js_mul (Num q) (Num 100) = fl (q * 100))
   \<and> (\<forall>q v. js_mul (Num q) (Num 100) = Num v \<longrightarrow>
          \<bar>v - q * 100\<bar> \<le> max (\<bar>q * 100\<bar> / 2 ^ 53) (1 / 2 ^ 1075))"
proof -
  have cards:
    "card_value (auc_card (metrics_section m))
       = (case auc (federated_model m) of Number x \<Rightarrow> toFixed 4 x | _ \<Rightarrow> ''N/A'')"
    "card_value (recall_card (metrics_section m))
       = (case recall (federated_model m) of Number x \<Rightarrow> toFixed 4 x | _ \<Rightarrow> ''N/A'')"
    "card_value (privacy_budget_card (metrics_section m))
       = (case epsilon (privacy_metrics m) of Number x \<Rightarrow> toFixed 2 x | _ \<Rightarrow> ''N/A'')"
    by (simp_all add: metrics_section_def MetricCard_def or_else_toFixed)
  have cost:
    "card_value (communication_cost_card (metrics_section m))
       = (case communication_cost_mb m of Number x \<Rightarrow> toFixed 2 x @ '' MB'' | _ \<Rightarrow> ''0 MB'')"
    by (simp add: metrics_section_def MetricCard_def or_else_toFixed split: field.split)
  have chips:
    "epsilon_chip (privacy_protection (metrics_section m))
       = epsilon_letter @ '' = '' @
         (case epsilon (privacy_metrics m) of Number x \<Rightarrow> toFixed 2 x | _ \<Rightarrow> ''N/A'')"
    "delta_chip (privacy_protection (metrics_section m))
       = delta_letter @ '' = '' @
         (case delta (privacy_metrics m) of Number x \<Rightarrow> toExponential 2 x | _ \<Rightarrow> ''N/A'')"
    "noise_chip (privacy_protection (metrics_section m))
       = ''Noise: '' @
         (case noise_multiplier (privacy_metrics m) of Number x \<Rightarrow> toFixed 2 x | _ \<Rightarrow> ''N/A'')"
    "clip_chip (privacy_protection (metrics_section m))
       = ''Clip: '' @
         (case l2_norm_clip (privacy_metrics m) of Number x \<Rightarrow> toFixed 1 x | _ \<Rightarrow> ''N/A'')"
    by (simp_all add: metrics_section_def PrivacyMetrics_def or_else_toFixed
        or_else_toExponential del: One_nat_def)
  have attacks:
    "\<forall>a x. privacy_attacks m = Some a \<longrightarrow> overall_defense_rate a = Number x \<longrightarrow>
       map_option overall_defense (attack_panel (privacy_protection (metrics_section m)))
         = Some (toFixed 1 (js_mul x (Num 100)) @ ''%'')"
    "\<forall>a mi x. privacy_attacks m = Some a \<longrightarrow> membership_inference a = Some mi \<longrightarrow>
       defense_success_rate mi = Number x \<longrightarrow>
       map_option membership_inference_defense
           (attack_panel (privacy_protection (metrics_section m)))
         = Some (toFixed 1 (js_mul x (Num 100)) @ ''%'')"
    "\<forall>a mv x. privacy_attacks m = Some a \<longrightarrow> model_inversion a = Some mv \<longrightarrow>
       defense_score mv = Number x \<longrightarrow>
       map_option model_inversion_defense
           (attack_panel (privacy_protection (metrics_section m)))
         = Some (toFixed 1 (js_mul x (Num 100)) @ ''%'')"
    by (simp_all add: metrics_section_def PrivacyMetrics_def percent_text_def
        del: One_nat_def)
  have rounding: "\<forall>f q. \<bar>q\<bar> < 10 ^ 21 \<longrightarrow> toFixed f (Num q) = rounded_to f q"
    by (simp add: toFixed_rounded)
  have product: "\<forall>q. js_mul (Num q) (Num 100) = fl (q * 100)"
    by simp
  have precision:
    "\<forall>q v. js_mul (Num q) (Num 100) = Num v \<longrightarrow>
       \<bar>v - q * 100\<bar> \<le> max (\<bar>q * 100\<bar> / 2 ^ 53) (1 / 2 ^ 1075)"
    using fl_error by simp
  from cards cost chips attacks rounding product precision show ?thesis
    by (intro conjI)
qed

theorem numeric_fields_display_witness:
  "card_value (auc_card (metrics_section example_metrics)) = ''0.9500''
   \<and> card_value (recall_card (metrics_section example_metrics)) = ''0.8800''
   \<and> card_value (privacy_budget_card (metrics_section example_metrics)) = ''1.20''
   \<and> card_value (communication_cost_card (metrics_section example_metrics)) = ''1.23 MB''
   \<and> epsilon_chip (privacy_protection (metrics_section example_metrics))
       = [CHR 0xCE, CHR 0xB5] @ '' = 1.20''
   \<and> delta_chip (privacy_protection (metrics_section example_metrics))
       = [CHR 0xCE, CHR 0xB4] @ '' = 1.00e-5''
   \<and> noise_chip (privacy_protection (metrics_section example_metrics)) = ''Noise: 1.10''
   \<and> clip_chip (privacy_protection (metrics_section example_metrics)) = ''Clip: 1.5''
   \<and> map_option overall_defense
        (attack_panel (privacy_protection (metrics_section example_metrics))) = Some ''7.0%''
   \<and> map_option membership_inference_defense
        (attack_panel (privacy_protection (metrics_section example_metrics))) = Some ''85.0%''"
proof -
  have ev:
    "toFixed 4 (fl (19 / 20)) = ''0.9500''"
    "toFixed 4 (fl (22 / 25)) = ''0.8800''"
    "toFixed 2 (fl (6 / 5)) = ''1.20''"
    "toFixed 2 (fl (617 / 500)) = ''1.23''"
    "toExponential 2 (fl (1 / 100000)) = ''1.00e-5''"
    "toFixed 2 (fl (11 / 10)) = ''1.10''"
    "toFixed 1 (fl (3 / 2)) = ''1.5''"
    "toFixed 1 (js_mul (fl (7 / 100)) (Num 100)) = ''7.0''"
    "toFixed 1 (js_mul (fl (17 / 20)) (Num 100)) = ''85.0''"
    by (simp_all add: num_eval text_eval)
  show ?thesis
    using numeric_fields_display [of example_metrics]
    by (elim conjE)
      (simp add: example_metrics_def ev epsilon_letter_def delta_letter_def del: One_nat_def)
qed

end
